theory Spec2Isabelle
  imports Complex_Main
begin

section \<open>Figure-of-merit selection of pulsars (gen\_FoM\_dataset.ipynb)\<close>

text \<open>
  The notebook scores every (pulsar, PTA) pair with a figure of merit (FoM), stores the
  scores in the nested dictionary \<open>FoM_dict\<close>, and then picks at most one PTA per
  pulsar. This theory embeds the intermediate-scaling score, the summarisation of one
  (pulsar, PTA) pair and the selection cell, and proves the properties the
  specification states about them.
\<close>

subsection \<open>The scoring functions\<close>

text \<open>
  \<^verbatim>\<open>
  def bwm_FoM(Tobs, dt, TOAerr):
      return np.sqrt(Tobs**3/dt) / TOAerr
  def gwb_FoM_weak(Tobs, dt, TOAerr):
      return Tobs**(13/3) / TOAerr**2 / dt
  def gwb_FoM_inter(Tobs, dt, TOAerr):
      return Tobs**(1/2) * (TOAerr**2 * dt) ** (-1/(2*13/3))
  \<close>
  The notebook imports \<open>division\<close> from \<open>__future__\<close>, so every \<open>/\<close> is true
  division: \<open>1/2\<close> and \<open>-1/(2*13/3)\<close> are fractions, and \<open>2*13/3\<close> associates to the
  left, \<open>(2*13)/3\<close>. The intermediate-scaling function is embedded over the real numbers,
  to say which formula it computes: the arithmetic is the exact one that the
  floating-point operations of the source approximate. A power with an integer literal
  exponent is \<open>^\<close>, a power with a fractional exponent is \<open>powr\<close>. What depends on the
  rounding itself, such as whether two different arguments of \<open>bwm_FoM\<close> give different
  floats, cannot be said over the real numbers, and the other two functions are not
  embedded.
\<close>

definition gwb_FoM_inter :: "real \<Rightarrow> real \<Rightarrow> real \<Rightarrow> real" where
  "gwb_FoM_inter Tobs dt TOAerr =
     Tobs powr (1 / 2) * (TOAerr ^ 2 * dt) powr (- 1 / (2 * 13 / 3))"

subsection \<open>Numbers stored in the dictionaries\<close>

text \<open>
  The values of \<open>FoM_dict\<close> are Python floats read back from JSON: a finite double
  (a real number), \<open>Infinity\<close>, \<open>-Infinity\<close> or \<open>NaN\<close>. The selection only compares
  them, and comparison of doubles is exact: \<open>float_lt a b\<close> is Python's \<open>a < b\<close> and
  \<open>float_gt a b\<close> is \<open>a > b\<close>; every comparison with \<open>NaN\<close> is false. The integer
  literal \<open>0\<close> of the source compares like the float \<open>Fin 0\<close>.
\<close>

datatype pyfloat = Fin real | PosInf | NegInf | NaN

fun float_lt :: "pyfloat \<Rightarrow> pyfloat \<Rightarrow> bool" where
  "float_lt (Fin x) (Fin y) = (x < y)"
| "float_lt (Fin x) PosInf = True"
| "float_lt NegInf (Fin y) = True"
| "float_lt NegInf PosInf = True"
| "float_lt a b = False"

definition float_gt :: "pyfloat \<Rightarrow> pyfloat \<Rightarrow> bool" where
  "float_gt a b = float_lt b a"

subsection \<open>Dictionaries and the lookup error\<close>

text \<open>
  A Python dictionary is a map; \<open>d[k]\<close> raises \<open>KeyError\<close> when \<open>k\<close> is missing.
  One record of \<open>FoM_dict[psr][pta]\<close> maps the field names \<open>'Tobs'\<close>, \<open>'dt'\<close>,
  \<open>'sigma'\<close> and \<open>'FoM'\<close> to floats.
\<close>

datatype py_error = KeyError

type_synonym fom_record = "string \<rightharpoonup> pyfloat"

type_synonym fom_dict = "string \<rightharpoonup> (string \<rightharpoonup> fom_record)"

definition getitem :: "('k \<rightharpoonup> 'v) \<Rightarrow> 'k \<Rightarrow> py_error + 'v" where
  "getitem d k = (case d k of None \<Rightarrow> Inl KeyError | Some v \<Rightarrow> Inr v)"

subsection \<open>Summarising one (pulsar, PTA) pair\<close>

text \<open>
  \<^verbatim>\<open>
  if len(psr.toas()[idx]) > 0:
      U, _ = utils.create_quantization_matrix(psr.toas()[idx]*86400, dt=86400, nmin=1)
      cadence = (psr.toas()[idx].max() - psr.toas()[idx].min()) / U.shape[1]
      Tobs = (psr.toas()[idx].max()-psr.toas()[idx].min()) / 365.25
      sigma = 1 / np.mean(1/psr.toaerrs[idx])
      FoM = my_FoM(Tobs, cadence, sigma)
  else:
      Tobs = 0
      sigma = np.inf
      cadence = np.inf
      FoM = 0
  FoM_dict[psrName][pta]['Tobs'] = Tobs
  FoM_dict[psrName][pta]['dt'] = cadence
  FoM_dict[psrName][pta]['sigma'] = sigma
  FoM_dict[psrName][pta]['FoM'] = FoM
  \<close>
  \<open>toas\<close> is the array of surviving epochs \<open>psr.toas()[idx]\<close> (with their
  uncertainties). The statistics of a non-empty array are computed by libraries outside
  the repository (libstempo arrays, the quantization matrix of enterprise, numpy's
  extended-precision arithmetic); they enter as the parameter \<open>toa_stats\<close>, which
  returns cadence, baseline and harmonic-mean uncertainty or raises (numpy's \<open>max\<close>
  of an empty array raises \<open>ValueError\<close>). The chosen scoring function enters as
  \<open>my_FoM\<close> on stored floats. The later cell that converts every value with \<open>float\<close>
  and the JSON round trip leave these values as they are.
\<close>

datatype np_error = ValueError

definition mk_record :: "pyfloat \<Rightarrow> pyfloat \<Rightarrow> pyfloat \<Rightarrow> pyfloat \<Rightarrow> fom_record" where
  "mk_record Tobs cadence sigma FoM =
     [''Tobs'' \<mapsto> Tobs, ''dt'' \<mapsto> cadence, ''sigma'' \<mapsto> sigma, ''FoM'' \<mapsto> FoM]"

definition FoM_entry ::
  "('a list \<Rightarrow> np_error + pyfloat \<times> pyfloat \<times> pyfloat) \<Rightarrow>
   (pyfloat \<Rightarrow> pyfloat \<Rightarrow> pyfloat \<Rightarrow> pyfloat) \<Rightarrow> 'a list \<Rightarrow> np_error + fom_record" where
  "FoM_entry toa_stats my_FoM toas =
     (case (if length toas > 0 then
              (case toa_stats toas of
                 Inl e \<Rightarrow> Inl e
               | Inr (cadence, Tobs, sigma) \<Rightarrow>
                   Inr (Tobs, sigma, cadence, my_FoM Tobs cadence sigma))
            else Inr (Fin 0, PosInf, PosInf, Fin 0)) of
        Inl e \<Rightarrow> Inl e
      | Inr (Tobs, sigma, cadence, FoM) \<Rightarrow> Inr (mk_record Tobs cadence sigma FoM))"

subsection \<open>The selection cell\<close>

text \<open>
  \<^verbatim>\<open>
  psrdict = {}
  for psrname in psrlist:
      best = {'pta':None, 'Tobs':0, 'FoM':0}
      for pta in ptas:
          try:
              this = FoM_dict[psrname][pta]
              if this['Tobs'] > Tmin and this['sigma'] < sigmax and this['FoM'] > best['FoM']:
                  best = {'pta':pta, 'Tobs':this['Tobs'], 'FoM':this['FoM']}
          except KeyError:
              pass
      if best['pta'] is not None:
          psrdict.update({psrname: {'pta':[best['pta']], 'group':backends[best['pta']]}})
          print(...)
  \<close>
  The dictionary \<open>best\<close> always has the same three keys and is a record here.
  The \<open>print\<close> formats a string and two floats and changes nothing.
\<close>

record best =
  best_pta :: "string option"
  best_Tobs :: pyfloat
  best_FoM :: pyfloat

definition best_init :: best where
  "best_init = \<lparr>best_pta = None, best_Tobs = Fin 0, best_FoM = Fin 0\<rparr>"

text \<open>
  The body of the \<open>try\<close>. Every subscript may raise; \<open>and\<close> evaluates its right
  operand only when the left one is true, so a field is looked up only when the
  comparisons before it succeeded. The two fields are read again when the new \<open>best\<close>
  is built.
\<close>

definition try_body ::
  "fom_dict \<Rightarrow> pyfloat \<Rightarrow> pyfloat \<Rightarrow> string \<Rightarrow> best \<Rightarrow> string \<Rightarrow> py_error + best" where
  "try_body FoM_dict Tmin sigmax psrname best pta =
     (case getitem FoM_dict psrname of Inl e \<Rightarrow> Inl e | Inr d \<Rightarrow>
      case getitem d pta of Inl e \<Rightarrow> Inl e | Inr this \<Rightarrow>
      case getitem this ''Tobs'' of Inl e \<Rightarrow> Inl e | Inr tobs \<Rightarrow>
      if \<not> float_gt tobs Tmin then Inr best else
      case getitem this ''sigma'' of Inl e \<Rightarrow> Inl e | Inr sg \<Rightarrow>
      if \<not> float_lt sg sigmax then Inr best else
      case getitem this ''FoM'' of Inl e \<Rightarrow> Inl e | Inr fom \<Rightarrow>
      if \<not> float_gt fom (best_FoM best) then Inr best else
      case getitem this ''Tobs'' of Inl e \<Rightarrow> Inl e | Inr tobs' \<Rightarrow>
      case getitem this ''FoM'' of Inl e \<Rightarrow> Inl e | Inr fom' \<Rightarrow>
        Inr \<lparr>best_pta = Some pta, best_Tobs = tobs', best_FoM = fom'\<rparr>)"

text \<open>The \<open>try\<close> with its handler: a \<open>KeyError\<close> leaves \<open>best\<close> as it was.\<close>

definition pta_step ::
  "fom_dict \<Rightarrow> pyfloat \<Rightarrow> pyfloat \<Rightarrow> string \<Rightarrow> best \<Rightarrow> string \<Rightarrow> best" where
  "pta_step FoM_dict Tmin sigmax psrname best pta =
     (case try_body FoM_dict Tmin sigmax psrname best pta of
        Inl KeyError \<Rightarrow> best
      | Inr best' \<Rightarrow> best')"

text \<open>The inner loop over the candidate PTAs, in the order of the list.\<close>

definition select_best ::
  "fom_dict \<Rightarrow> string list \<Rightarrow> pyfloat \<Rightarrow> pyfloat \<Rightarrow> string \<Rightarrow> best" where
  "select_best FoM_dict ptas Tmin sigmax psrname =
     foldl (pta_step FoM_dict Tmin sigmax psrname) best_init ptas"

text \<open>
  One entry of \<open>psrdict\<close>: the chosen PTA as a one-element list and its backends.
  \<open>backends[best['pta']]\<close> stands outside the \<open>try\<close>, so a PTA without backends
  raises.
\<close>

record entry =
  entry_pta :: "string list"
  entry_group :: "string list"

type_synonym psrdict = "string \<rightharpoonup> entry"

definition psr_step ::
  "fom_dict \<Rightarrow> string list \<Rightarrow> (string \<rightharpoonup> string list) \<Rightarrow> pyfloat \<Rightarrow> pyfloat \<Rightarrow>
   psrdict \<Rightarrow> string \<Rightarrow> py_error + psrdict" where
  "psr_step FoM_dict ptas backends Tmin sigmax psrdict psrname =
     (let best = select_best FoM_dict ptas Tmin sigmax psrname in
      case best_pta best of
        None \<Rightarrow> Inr psrdict
      | Some p \<Rightarrow>
         (case getitem backends p of
            Inl e \<Rightarrow> Inl e
          | Inr g \<Rightarrow> Inr (psrdict(psrname \<mapsto> \<lparr>entry_pta = [p], entry_group = g\<rparr>))))"

fun psr_loop ::
  "fom_dict \<Rightarrow> string list \<Rightarrow> (string \<rightharpoonup> string list) \<Rightarrow> pyfloat \<Rightarrow> pyfloat \<Rightarrow>
   psrdict \<Rightarrow> string list \<Rightarrow> py_error + psrdict" where
  "psr_loop FoM_dict ptas backends Tmin sigmax psrdict [] = Inr psrdict"
| "psr_loop FoM_dict ptas backends Tmin sigmax psrdict (psrname # psrlist) =
     (case psr_step FoM_dict ptas backends Tmin sigmax psrdict psrname of
        Inl e \<Rightarrow> Inl e
      | Inr psrdict' \<Rightarrow> psr_loop FoM_dict ptas backends Tmin sigmax psrdict' psrlist)"

text \<open>
  The whole cell as a function of what it reads: \<open>psrdict\<close> starts empty and the
  outer loop runs over \<open>psrlist\<close>.
\<close>

definition selector ::
  "fom_dict \<Rightarrow> string list \<Rightarrow> (string \<rightharpoonup> string list) \<Rightarrow> pyfloat \<Rightarrow> pyfloat \<Rightarrow>
   string list \<Rightarrow> py_error + psrdict" where
  "selector FoM_dict ptas backends Tmin sigmax psrlist =
     psr_loop FoM_dict ptas backends Tmin sigmax Map.empty psrlist"



subsection \<open>The configuration of the source\<close>

text \<open>
  \<^verbatim>\<open>
  Tmin = 5.0  # yrs
  sigmax = 10.0  # us
  ptas = ['PPTA', 'EPTA', 'NANOGrav']
  backends = {'NANOGrav': [...], 'PPTA': [...], 'EPTA': [...]}
  \<close>
\<close>

definition Tmin :: pyfloat where
  "Tmin = Fin 5"

definition sigmax :: pyfloat where
  "sigmax = Fin 10"

definition ptas :: "string list" where
  "ptas = [''PPTA'', ''EPTA'', ''NANOGrav'']"

definition backends :: "string \<rightharpoonup> string list" where
  "backends = map_of
     [(''NANOGrav'',
        [''327_ASP'', ''430_ASP'', ''L-wide_ASP'', ''S-wide_ASP'',
         ''327_PUPPI'', ''430_PUPPI'', ''L-wide_PUPPI'', ''S-wide_PUPPI'',
         ''Rcvr_800_GASP'', ''Rcvr1_2_GASP'',
         ''Rcvr_800_GUPPI'', ''Rcvr1_2_GUPPI'']),
      (''PPTA'',
        [''PDFB_10CM'', ''PDFB_20CM'', ''PDFB_40CM'',
         ''CPSR2_20CM'', ''CPSR2_50CM'',
         ''WBCORR_10CM'', ''WBCORR_20CM'']),
      (''EPTA'',
        [''EFF.EBPP.1360'', ''EFF.EBPP.1410'', ''EFF.EBPP.2639'',
         ''JBO.DFB.1400'', ''JBO.DFB.1520'',
         ''NRT.BON.1400'', ''NRT.BON.1600'', ''NRT.BON.2000'',
         ''WSRT.P1.328'', ''WSRT.P1.328.C'', ''WSRT.P1.323.C'',
         ''WSRT.P1.382'', ''WSRT.P1.382.C'', ''WSRT.P1.367.C'',
         ''WSRT.P1.840'', ''WSRT.P1.840.C'',
         ''WSRT.P1.1380'', ''WSRT.P1.1380.C'',
         ''WSRT.P1.1380.1'',
         ''WSRT.P1.1380.2'', ''WSRT.P1.1380.2.C'',
         ''WSRT.P1.2273.C''])]"

subsection \<open>Qualifying records\<close>

text \<open>
  The words of the specification: a record of a pulsar \<^emph>\<open>qualifies\<close> when it exists for
  the (pulsar, PTA) pair, its baseline is above the minimum baseline and its uncertainty
  is below the maximum uncertainty. \<open>record_of\<close> is the record of a pair, if there is
  one; \<open>qualifying\<close> gives the baseline and the FoM of a record that qualifies and
  carries all three fields.
\<close>

definition record_of :: "fom_dict \<Rightarrow> string \<Rightarrow> string \<Rightarrow> fom_record option" where
  "record_of D n c = (case D n of None \<Rightarrow> None | Some d \<Rightarrow> d c)"

definition qualifying ::
  "fom_dict \<Rightarrow> pyfloat \<Rightarrow> pyfloat \<Rightarrow> string \<Rightarrow> string \<Rightarrow> (pyfloat \<times> pyfloat) option" where
  "qualifying D tmin smax n c =
     (case record_of D n c of
        None \<Rightarrow> None
      | Some r \<Rightarrow>
         (case r ''Tobs'' of
            None \<Rightarrow> None
          | Some t \<Rightarrow>
             (case r ''sigma'' of
                None \<Rightarrow> None
              | Some s \<Rightarrow>
                 (case r ''FoM'' of
                    None \<Rightarrow> None
                  | Some f \<Rightarrow>
                     if float_gt t tmin \<and> float_lt s smax then Some (t, f) else None))))"

subsection \<open>Example inputs\<close>

text \<open>
  The end-to-end scenario of the specification: one pulsar observed by two
  collaborations \<open>A\<close> and \<open>B\<close>, with candidate order \<open>[A, B]\<close>, minimum baseline 5
  and maximum uncertainty 10. The variants change single fields of it.
\<close>

definition ex_dict :: "pyfloat \<Rightarrow> pyfloat \<Rightarrow> fom_dict" where
  "ex_dict fomA fomB =
     [''J0000+0000'' \<mapsto>
        [''A'' \<mapsto> mk_record (Fin 6) (Fin 20) (Fin 2) fomA,
         ''B'' \<mapsto> mk_record (Fin 8) (Fin 15) (Fin (3 / 2)) fomB]]"

definition ex_backends :: "string \<rightharpoonup> string list" where
  "ex_backends = [''A'' \<mapsto> [''a1'', ''a2''], ''B'' \<mapsto> [''b1'']]"

text \<open>Records on the thresholds: \<open>A\<close> has baseline 5, \<open>B\<close> has uncertainty 10.\<close>

definition edge_dict :: fom_dict where
  "edge_dict =
     [''J0000+0000'' \<mapsto>
        [''A'' \<mapsto> mk_record (Fin 5) (Fin 20) (Fin 2) (Fin 10),
         ''B'' \<mapsto> mk_record (Fin 8) (Fin 15) (Fin 10) (Fin 25)]]"

text \<open>The source's configuration with a tie between PPTA and EPTA.\<close>

definition tie_dict :: fom_dict where
  "tie_dict =
     [''J0437-4715'' \<mapsto>
        [''PPTA'' \<mapsto> mk_record (Fin 6) (Fin 20) (Fin 2) (Fin 10),
         ''EPTA'' \<mapsto> mk_record (Fin 8) (Fin 15) (Fin (3 / 2)) (Fin 10)]]"

text \<open>
  Collaboration \<open>A\<close> has no surviving epochs: its record is the one the summarisation
  writes for the empty array.
\<close>

definition no_epochs_dict :: fom_dict where
  "no_epochs_dict =
     [''J0000+0000'' \<mapsto>
        [''A'' \<mapsto> mk_record (Fin 0) PosInf PosInf (Fin 0),
         ''B'' \<mapsto> mk_record (Fin 8) (Fin 15) (Fin (3 / 2)) (Fin 25)]]"

text \<open>The record of \<open>A\<close> lacks the field \<open>'FoM'\<close>.\<close>

definition partial_dict :: fom_dict where
  "partial_dict =
     [''J0000+0000'' \<mapsto>
        [''A'' \<mapsto> [''Tobs'' \<mapsto> Fin 6, ''dt'' \<mapsto> Fin 20, ''sigma'' \<mapsto> Fin 2],
         ''B'' \<mapsto> mk_record (Fin 8) (Fin 15) (Fin (3 / 2)) (Fin 25)]]"

text \<open>
  PPTA and NANOGrav have records, EPTA, the second candidate of the source's order, has
  none.
\<close>

definition absent_dict :: fom_dict where
  "absent_dict =
     [''J0437-4715'' \<mapsto>
        [''PPTA'' \<mapsto> mk_record (Fin 6) (Fin 20) (Fin 2) (Fin 10),
         ''NANOGrav'' \<mapsto> mk_record (Fin 8) (Fin 15) (Fin (3 / 2)) (Fin 25)]]"


section \<open>The intermediate-scaling score\<close>

text \<open>
  The exponent of the intermediate-scaling formula, as Python evaluates it:
  \<open>2*13/3\<close> is \<open>26/3\<close>, so \<open>-1/(2*13/3)\<close> is \<open>-3/26\<close>. The markdown cell above
  the function writes the exponent as \<open>1/(2\<beta>)\<close> for \<open>\<beta> = 13/3\<close>, the same number.
  Powers of \<open>2 ^ 26\<close> make both exponents visible in closed form.
\<close>

lemma inter_exponent: "(- 1 / (2 * 13 / 3) :: real) = - 3 / 26"
  by simp

lemma pow26: "((2::real) ^ 26) powr x = 2 powr (26 * x)"
proof -
  have "(2::real) ^ 26 = 2 powr 26"
    by (simp add: powr_numeral del: power_numeral)
  then show ?thesis by (simp only: powr_powr)
qed

lemma two_powr_m3: "(2::real) powr (- 3) = 1 / 8"
proof -
  have "(2::real) powr 3 = 8" by (simp add: powr_numeral)
  then show ?thesis by (simp only: powr_minus) simp
qed

lemma two_powr_m6: "(2::real) powr (- 6) = 1 / 64"
proof -
  have "(2::real) powr 6 = 64" by (simp add: powr_numeral)
  then show ?thesis by (simp only: powr_minus) simp
qed

lemma pow26_m3_26: "((2::real) ^ 26) powr (- 3 / 26) = 1 / 8"
proof -
  have "26 * (- 3 / 26) = (- 3 :: real)" by simp
  then show ?thesis by (simp only: pow26 two_powr_m3)
qed

lemma pow26_m3_13: "((2::real) ^ 26) powr (- 3 / 13) = 1 / 64"
proof -
  have "26 * (- 3 / 13) = (- 6 :: real)" by simp
  then show ?thesis by (simp only: pow26 two_powr_m6)
qed

text \<open>
  C2 (as amended). For all positive baseline \<open>T\<close>, cadence \<open>dt\<close> and uncertainty
  \<open>sigma\<close>, the intermediate-scaling function returns
  \<open>sqrt T * (sigma\<^sup>2 * dt) powr (- 3 / 26)\<close>: the exponent is \<open>-3/26\<close>, not \<open>-3/13\<close>.
\<close>

theorem gwb_FoM_inter_closed_form:
  assumes "0 < T" and "0 < dt" and "0 < sigma"
  shows "gwb_FoM_inter T dt sigma = sqrt T * (sigma ^ 2 * dt) powr (- 3 / 26)"
  using assms by (simp add: gwb_FoM_inter_def powr_half_sqrt)

text \<open>
  The closed form at \<open>T = 4\<close>, \<open>dt = 2 ^ 26\<close>, \<open>sigma = 1\<close>, where the value is \<open>1/4\<close>.
\<close>

theorem gwb_FoM_inter_closed_form_witness:
  "gwb_FoM_inter 4 (2 ^ 26) 1 = sqrt 4 * (1 ^ 2 * 2 ^ 26) powr (- 3 / 26) \<and>
   gwb_FoM_inter 4 (2 ^ 26) 1 = 1 / 4"
proof -
  have pos: "(0::real) < 4" "(0::real) < 2 ^ 26" "(0::real) < 1"
    by simp_all
  have eq: "gwb_FoM_inter 4 (2 ^ 26) 1 = sqrt 4 * (1 ^ 2 * 2 ^ 26) powr (- 3 / 26)"
    by (rule gwb_FoM_inter_closed_form [OF pos])
  have "sqrt 4 = sqrt (2 ^ 2)" by simp
  then have s: "sqrt 4 = 2" by simp
  have "(1 ^ 2 * 2 ^ 26 :: real) = 2 ^ 26" by (simp del: power_numeral)
  then have "sqrt 4 * ((1::real) ^ 2 * 2 ^ 26) powr (- 3 / 26) = 1 / 4"
    by (simp only: s pow26_m3_26)
  with eq show ?thesis by simp
qed

text \<open>
  With the exponent \<open>-3/13\<close> the formula gives \<open>1/64\<close> at \<open>T = 1\<close>, \<open>dt = 2 ^ 26\<close>,
  \<open>sigma = 1\<close>; the function returns \<open>1/8\<close> there.
\<close>

theorem gwb_FoM_inter_exponent_counterexample:
  "gwb_FoM_inter 1 (2 ^ 26) 1 = 1 / 8 \<and>
   sqrt 1 * ((1::real) ^ 2 * 2 ^ 26) powr (- 3 / 13) = 1 / 64 \<and>
   gwb_FoM_inter 1 (2 ^ 26) 1 \<noteq> sqrt 1 * ((1::real) ^ 2 * 2 ^ 26) powr (- 3 / 13)"
proof -
  have c: "gwb_FoM_inter 1 (2 ^ 26) 1 = ((2::real) ^ 26) powr (- 3 / 26)"
    unfolding gwb_FoM_inter_def by (simp del: power_numeral add: inter_exponent)
  have d: "sqrt 1 * ((1::real) ^ 2 * 2 ^ 26) powr (- 3 / 13) = ((2::real) ^ 26) powr (- 3 / 13)"
    by (simp del: power_numeral)
  have ne: "(1 / 8 :: real) \<noteq> 1 / 64" by simp
  show ?thesis by (simp only: c d pow26_m3_26 pow26_m3_13 ne) simp
qed

section \<open>The order on stored floats\<close>

text \<open>
  Python's \<open><\<close> and \<open>>\<close> on floats are irreflexive and transitive, and two floats
  other than \<open>NaN\<close> are equal or ordered one way.
\<close>

lemma float_lt_irrefl: "\<not> float_lt a a"
  by (cases a) simp_all

lemma float_lt_trans: "float_lt a b \<Longrightarrow> float_lt b c \<Longrightarrow> float_lt a c"
  by (cases a; cases b; cases c) simp_all

lemma float_gt_irrefl: "\<not> float_gt a a"
  by (simp add: float_gt_def float_lt_irrefl)

lemma float_gt_trans: "float_gt a b \<Longrightarrow> float_gt b c \<Longrightarrow> float_gt a c"
  unfolding float_gt_def by (rule float_lt_trans)

lemma not_gt_raise:
  assumes "\<not> float_gt f m" and "m' = m \<or> float_gt m' m"
  shows "\<not> float_gt f m'"
  using assms float_gt_trans by blast

lemma float_gt_not_NaN: "float_gt a x \<Longrightarrow> a \<noteq> NaN"
  by (cases x) (auto simp: float_gt_def)

lemma float_gt_total:
  assumes "a \<noteq> NaN" and "b \<noteq> NaN"
  shows "a = b \<or> float_gt a b \<or> float_gt b a"
  using assms by (cases a; cases b) (auto simp: float_gt_def)

section \<open>One step of the inner loop\<close>

text \<open>
  The \<open>try\<close> block with its handler does what the specification's algorithm says:
  \<open>best\<close> is replaced exactly when the record of the pair qualifies and its FoM is
  greater than the FoM of \<open>best\<close>; in every other case, a raised \<open>KeyError\<close>
  included, \<open>best\<close> stays.
\<close>

lemma pta_step_char:
  "pta_step D tmin smax n b c =
     (case qualifying D tmin smax n c of
        None \<Rightarrow> b
      | Some (t, f) \<Rightarrow>
          if float_gt f (best_FoM b) then \<lparr>best_pta = Some c, best_Tobs = t, best_FoM = f\<rparr> else b)"
  by (simp add: pta_step_def try_body_def getitem_def qualifying_def record_of_def
      split: option.splits py_error.splits)

lemma pta_step_cases:
  "pta_step D tmin smax n b c = b \<or>
   (\<exists>t f. qualifying D tmin smax n c = Some (t, f) \<and> float_gt f (best_FoM b) \<and>
      pta_step D tmin smax n b c = \<lparr>best_pta = Some c, best_Tobs = t, best_FoM = f\<rparr>)"
  by (auto simp: pta_step_char split: option.splits)

lemma pta_step_upper:
  assumes "qualifying D tmin smax n c = Some (t, f)"
  shows "\<not> float_gt f (best_FoM (pta_step D tmin smax n b c))"
  using assms by (simp add: pta_step_char float_gt_irrefl)

lemma pta_step_mono:
  "best_FoM (pta_step D tmin smax n b c) = best_FoM b \<or>
   float_gt (best_FoM (pta_step D tmin smax n b c)) (best_FoM b)"
  using pta_step_cases [of D tmin smax n b c] by auto

lemma qualifying_SomeD:
  assumes "qualifying D tmin smax n c = Some (t, f)"
  shows "\<exists>r s. record_of D n c = Some r \<and> r ''Tobs'' = Some t \<and> r ''sigma'' = Some s \<and>
           r ''FoM'' = Some f \<and> float_gt t tmin \<and> float_lt s smax"
  using assms by (auto simp: qualifying_def split: option.splits if_splits)

lemma qualifying_absent:
  assumes "record_of D n c = None"
  shows "qualifying D tmin smax n c = None"
  using assms by (simp add: qualifying_def)

lemma qualifying_partial:
  assumes "record_of D n c = Some r"
    and "r ''Tobs'' = None \<or> r ''sigma'' = None \<or> r ''FoM'' = None"
  shows "qualifying D tmin smax n c = None"
  using assms by (auto simp: qualifying_def split: option.splits)

lemma qualifying_on_threshold:
  assumes "record_of D n c = Some r"
    and "r ''Tobs'' = Some tmin \<or> r ''sigma'' = Some smax"
  shows "qualifying D tmin smax n c = None"
  using assms
  by (auto simp: qualifying_def float_gt_irrefl float_lt_irrefl split: option.splits)

lemma not_qualifying_skip:
  assumes "qualifying D tmin smax n c = None"
  shows "pta_step D tmin smax n b c = b"
  using assms by (simp add: pta_step_char)

section \<open>The inner loop\<close>

text \<open>
  Along the loop the FoM of \<open>best\<close> never decreases, so after the loop no qualifying
  candidate has a greater FoM than \<open>best\<close>. When \<open>best\<close> has changed, it holds the
  record of the candidate at which it was last replaced, and every qualifying candidate
  before that position has a different FoM that is not greater.
\<close>

lemma fold_mono:
  "best_FoM (foldl (pta_step D tmin smax n) b cs) = best_FoM b \<or>
   float_gt (best_FoM (foldl (pta_step D tmin smax n) b cs)) (best_FoM b)"
proof (induction cs arbitrary: b)
  case Nil
  then show ?case by simp
next
  case (Cons c cs)
  from Cons.IH [of "pta_step D tmin smax n b c"] pta_step_mono [of D tmin smax n b c]
  show ?case by (auto dest: float_gt_trans)
qed

lemma fold_upper:
  assumes "c \<in> set cs" and "qualifying D tmin smax n c = Some (t, f)"
  shows "\<not> float_gt f (best_FoM (foldl (pta_step D tmin smax n) b cs))"
  using assms
proof (induction cs arbitrary: b)
  case Nil
  then show ?case by simp
next
  case (Cons x cs)
  show ?case
  proof (cases "c \<in> set cs")
    case True
    with Cons show ?thesis by simp
  next
    case False
    with Cons.prems have "x = c" by simp
    with Cons.prems have "\<not> float_gt f (best_FoM (pta_step D tmin smax n b x))"
      by (simp add: pta_step_upper)
    then show ?thesis
      using fold_mono [of D tmin smax n "pta_step D tmin smax n b x" cs]
      by (auto dest: not_gt_raise)
  qed
qed

lemma fold_char:
  "foldl (pta_step D tmin smax n) b cs = b \<or>
   (\<exists>xs ys c t f. cs = xs @ c # ys \<and> qualifying D tmin smax n c = Some (t, f) \<and>
      foldl (pta_step D tmin smax n) b cs = \<lparr>best_pta = Some c, best_Tobs = t, best_FoM = f\<rparr> \<and>
      float_gt f (best_FoM b) \<and>
      (\<forall>c' \<in> set xs. \<forall>t' f'. qualifying D tmin smax n c' = Some (t', f') \<longrightarrow>
         \<not> float_gt f' f \<and> f' \<noteq> f))"
proof (induction cs rule: rev_induct)
  case Nil
  then show ?case by simp
next
  case (snoc x cs)
  let ?R = "foldl (pta_step D tmin smax n) b cs"
  have unfold: "foldl (pta_step D tmin smax n) b (cs @ [x]) = pta_step D tmin smax n ?R x"
    by simp
  from pta_step_cases [of D tmin smax n ?R x]
  show ?case
  proof
    assume same: "pta_step D tmin smax n ?R x = ?R"
    from snoc.IH show ?thesis
    proof
      assume "?R = b"
      with same unfold show ?thesis by simp
    next
      assume "\<exists>xs ys c t f. cs = xs @ c # ys \<and> qualifying D tmin smax n c = Some (t, f) \<and>
        ?R = \<lparr>best_pta = Some c, best_Tobs = t, best_FoM = f\<rparr> \<and> float_gt f (best_FoM b) \<and>
        (\<forall>c' \<in> set xs. \<forall>t' f'. qualifying D tmin smax n c' = Some (t', f') \<longrightarrow>
           \<not> float_gt f' f \<and> f' \<noteq> f)"
      then obtain xs ys c t f where h: "cs = xs @ c # ys"
        "qualifying D tmin smax n c = Some (t, f)"
        "?R = \<lparr>best_pta = Some c, best_Tobs = t, best_FoM = f\<rparr>" "float_gt f (best_FoM b)"
        "\<forall>c' \<in> set xs. \<forall>t' f'. qualifying D tmin smax n c' = Some (t', f') \<longrightarrow>
           \<not> float_gt f' f \<and> f' \<noteq> f"
        by blast
      from h(1) have "cs @ [x] = xs @ c # (ys @ [x])" by simp
      with h same unfold show ?thesis by metis
    qed
  next
    assume "\<exists>t f. qualifying D tmin smax n x = Some (t, f) \<and> float_gt f (best_FoM ?R) \<and>
      pta_step D tmin smax n ?R x = \<lparr>best_pta = Some x, best_Tobs = t, best_FoM = f\<rparr>"
    then obtain t f where h: "qualifying D tmin smax n x = Some (t, f)"
      "float_gt f (best_FoM ?R)"
      "pta_step D tmin smax n ?R x = \<lparr>best_pta = Some x, best_Tobs = t, best_FoM = f\<rparr>"
      by blast
    have up: "float_gt f (best_FoM b)"
      using h(2) fold_mono [of D tmin smax n b cs] by (auto dest: float_gt_trans)
    have earlier: "\<not> float_gt f' f \<and> f' \<noteq> f"
      if "c' \<in> set cs" and "qualifying D tmin smax n c' = Some (t', f')" for c' t' f'
    proof -
      from that have "\<not> float_gt f' (best_FoM ?R)" by (rule fold_upper)
      with h(2) show ?thesis by (auto dest: float_gt_trans)
    qed
    have "cs @ [x] = cs @ x # []" by simp
    with h up earlier unfold show ?thesis by metis
  qed
qed

lemma select_best_Some:
  assumes "best_pta (select_best D cs tmin smax n) = Some c"
  shows "\<exists>xs ys t f. cs = xs @ c # ys \<and> qualifying D tmin smax n c = Some (t, f) \<and>
      select_best D cs tmin smax n = \<lparr>best_pta = Some c, best_Tobs = t, best_FoM = f\<rparr> \<and>
      float_gt f (Fin 0) \<and>
      (\<forall>c' \<in> set xs. \<forall>t' f'. qualifying D tmin smax n c' = Some (t', f') \<longrightarrow>
         \<not> float_gt f' f \<and> f' \<noteq> f)"
proof -
  from fold_char [of D tmin smax n best_init cs]
  show ?thesis
  proof
    assume "foldl (pta_step D tmin smax n) best_init cs = best_init"
    with assms show ?thesis by (simp add: select_best_def best_init_def)
  next
    assume "\<exists>xs ys c t f. cs = xs @ c # ys \<and> qualifying D tmin smax n c = Some (t, f) \<and>
      foldl (pta_step D tmin smax n) best_init cs =
        \<lparr>best_pta = Some c, best_Tobs = t, best_FoM = f\<rparr> \<and>
      float_gt f (best_FoM best_init) \<and>
      (\<forall>c' \<in> set xs. \<forall>t' f'. qualifying D tmin smax n c' = Some (t', f') \<longrightarrow>
         \<not> float_gt f' f \<and> f' \<noteq> f)"
    then obtain xs ys c0 t f where h: "cs = xs @ c0 # ys"
      "qualifying D tmin smax n c0 = Some (t, f)"
      "foldl (pta_step D tmin smax n) best_init cs =
        \<lparr>best_pta = Some c0, best_Tobs = t, best_FoM = f\<rparr>"
      "float_gt f (best_FoM best_init)"
      "\<forall>c' \<in> set xs. \<forall>t' f'. qualifying D tmin smax n c' = Some (t', f') \<longrightarrow>
         \<not> float_gt f' f \<and> f' \<noteq> f"
      by blast
    from h(3) assms have "c0 = c" by (simp add: select_best_def)
    with h show ?thesis by (auto simp: select_best_def best_init_def)
  qed
qed

lemma select_best_upper:
  assumes "c \<in> set cs" and "qualifying D tmin smax n c = Some (t, f)"
  shows "\<not> float_gt f (best_FoM (select_best D cs tmin smax n))"
  unfolding select_best_def using assms by (rule fold_upper)

lemma fold_skip:
  assumes "\<And>b. pta_step D tmin smax n b c = b"
  shows "foldl (pta_step D tmin smax n) b (removeAll c cs) = foldl (pta_step D tmin smax n) b cs"
  using assms by (induction cs arbitrary: b) auto

lemma fold_cong_qualifying:
  assumes "\<And>c. c \<in> set cs \<Longrightarrow> qualifying D tmin smax n c = qualifying D' tmin smax n c"
  shows "foldl (pta_step D tmin smax n) b cs = foldl (pta_step D' tmin smax n) b cs"
  using assms by (induction cs arbitrary: b) (simp_all add: pta_step_char)

lemma not_qualifying_not_chosen:
  assumes "qualifying D tmin smax n c = None"
  shows "best_pta (select_best D cs tmin smax n) \<noteq> Some c"
proof
  assume "best_pta (select_best D cs tmin smax n) = Some c"
  from select_best_Some [OF this] assms show False by auto
qed

lemma fold_stay:
  assumes "\<forall>c \<in> set ys. \<forall>t f. qualifying D tmin smax n c = Some (t, f) \<longrightarrow>
             \<not> float_gt f (best_FoM b)"
  shows "foldl (pta_step D tmin smax n) b ys = b"
  using assms
proof (induction ys)
  case Nil
  then show ?case by simp
next
  case (Cons y ys)
  then have "pta_step D tmin smax n b y = b"
    by (auto simp: pta_step_char split: option.splits)
  with Cons show ?case by simp
qed

lemma select_best_cong:
  assumes "\<And>c. c \<in> set cs \<Longrightarrow> qualifying D tmin smax n c = qualifying D' tmin smax n c"
  shows "select_best D cs tmin smax n = select_best D' cs tmin smax n"
  unfolding select_best_def using assms by (rule fold_cong_qualifying)

lemma select_best_None:
  assumes "best_pta (select_best D cs tmin smax n) = None"
  shows "select_best D cs tmin smax n = best_init"
  using fold_char [of D tmin smax n best_init cs] assms
  by (auto simp: select_best_def)

lemma select_best_exists:
  assumes "c \<in> set cs" and "qualifying D tmin smax n c = Some (t, f)" and "float_gt f (Fin 0)"
  shows "\<exists>p. best_pta (select_best D cs tmin smax n) = Some p"
proof (cases "best_pta (select_best D cs tmin smax n)")
  case None
  then have "best_FoM (select_best D cs tmin smax n) = Fin 0"
    by (simp add: select_best_None best_init_def)
  with select_best_upper [OF assms(1,2)] assms(3) show ?thesis by simp
next
  case (Some p)
  then show ?thesis by blast
qed


lemma select_best_candidate:
  assumes "best_pta (select_best D cs tmin smax n) = Some p"
  shows "p \<in> set cs"
  using select_best_Some [OF assms] by auto

section \<open>The outer loop\<close>

text \<open>
  The table that the cell builds has an entry for a pulsar exactly when the pulsar is
  in \<open>psrlist\<close> and its inner loop chose a PTA; the run fails only when a chosen PTA
  has no backends.
\<close>

lemma psr_step_lookup:
  assumes "psr_step D cs bk tmin smax acc x = Inr acc'"
  shows "acc' n =
     (if n = x then
        (case best_pta (select_best D cs tmin smax n) of
           None \<Rightarrow> acc n
         | Some p \<Rightarrow> map_option (\<lambda>g. \<lparr>entry_pta = [p], entry_group = g\<rparr>) (bk p))
      else acc n)"
  using assms
  by (auto simp: psr_step_def getitem_def Let_def split: option.splits)

lemma psr_loop_lookup:
  assumes "psr_loop D cs bk tmin smax acc ns = Inr out"
  shows "out n =
     (if n \<in> set ns then
        (case best_pta (select_best D cs tmin smax n) of
           None \<Rightarrow> acc n
         | Some p \<Rightarrow> map_option (\<lambda>g. \<lparr>entry_pta = [p], entry_group = g\<rparr>) (bk p))
      else acc n)"
  using assms
proof (induction ns arbitrary: acc)
  case Nil
  then show ?case by simp
next
  case (Cons x ns)
  from Cons.prems obtain acc' where
    s: "psr_step D cs bk tmin smax acc x = Inr acc'" and
    l: "psr_loop D cs bk tmin smax acc' ns = Inr out"
    by (auto split: sum.splits)
  from Cons.IH [OF l] psr_step_lookup [OF s, of n]
  show ?case by (auto split: option.splits)
qed

lemma selector_lookup:
  assumes "selector D cs bk tmin smax ns = Inr out"
  shows "out n =
     (if n \<in> set ns then
        (case best_pta (select_best D cs tmin smax n) of
           None \<Rightarrow> None
         | Some p \<Rightarrow> map_option (\<lambda>g. \<lparr>entry_pta = [p], entry_group = g\<rparr>) (bk p))
      else None)"
  using psr_loop_lookup [of D cs bk tmin smax Map.empty ns out n] assms
  by (simp add: selector_def)

lemma selector_entry:
  assumes "selector D cs bk tmin smax ns = Inr out" and "out n = Some e"
  shows "\<exists>p. best_pta (select_best D cs tmin smax n) = Some p \<and> entry_pta e = [p]"
  using selector_lookup [OF assms(1), of n] assms(2)
  by (auto simp: map_option_case split: if_splits option.splits)

lemma psr_loop_total:
  assumes "set cs \<subseteq> dom bk"
  shows "\<exists>out. psr_loop D cs bk tmin smax acc ns = Inr out"
proof (induction ns arbitrary: acc)
  case Nil
  then show ?case by simp
next
  case (Cons x ns)
  have "\<exists>acc'. psr_step D cs bk tmin smax acc x = Inr acc'"
  proof (cases "best_pta (select_best D cs tmin smax x)")
    case None
    then show ?thesis by (simp add: psr_step_def)
  next
    case (Some p)
    from select_best_Some [OF Some] have "p \<in> set cs" by auto
    with assms obtain g where "bk p = Some g" by auto
    with Some show ?thesis by (simp add: psr_step_def getitem_def)
  qed
  then obtain acc' where "psr_step D cs bk tmin smax acc x = Inr acc'" ..
  with Cons.IH [of acc'] show ?case by simp
qed

lemma selector_total:
  assumes "set cs \<subseteq> dom bk"
  shows "\<exists>out. selector D cs bk tmin smax ns = Inr out"
  unfolding selector_def using assms by (rule psr_loop_total)

lemma selector_assigned:
  assumes "set cs \<subseteq> dom bk" and "n \<in> set ns"
    and "best_pta (select_best D cs tmin smax n) = Some p"
  shows "\<exists>out g. selector D cs bk tmin smax ns = Inr out \<and> bk p = Some g \<and>
           out n = Some \<lparr>entry_pta = [p], entry_group = g\<rparr>"
proof -
  from selector_total [OF assms(1)] obtain out where
    out: "selector D cs bk tmin smax ns = Inr out"
    by blast
  from select_best_Some [OF assms(3)] have "p \<in> set cs" by auto
  with assms(1) obtain g where g: "bk p = Some g" by auto
  from selector_lookup [OF out, of n] assms(2,3) g
  have "out n = Some \<lparr>entry_pta = [p], entry_group = g\<rparr>" by simp
  with out g show ?thesis by blast
qed

text \<open>
  The run as a whole: it fails exactly when some pulsar of the list is assigned a PTA
  without backends, and otherwise returns the table that holds, for each pulsar of the
  list with a chosen PTA, that PTA and its backends. So the result depends on
  \<open>psrlist\<close> only as a set, on \<open>FoM_dict\<close> only at the pulsars of the list and on
  \<open>backends\<close> only at the candidates.
\<close>

lemma psr_loop_char:
  "psr_loop D cs bk tmin smax acc ns =
     (if \<exists>n \<in> set ns. \<exists>p. best_pta (select_best D cs tmin smax n) = Some p \<and> bk p = None
      then Inl KeyError
      else Inr (\<lambda>n. if n \<in> set ns then
                      (case best_pta (select_best D cs tmin smax n) of
                         None \<Rightarrow> acc n
                       | Some p \<Rightarrow> map_option (\<lambda>g. \<lparr>entry_pta = [p], entry_group = g\<rparr>) (bk p))
                    else acc n))"
proof (induction ns arbitrary: acc)
  case Nil
  then show ?case by simp
next
  case (Cons x ns)
  show ?case
  proof (cases "best_pta (select_best D cs tmin smax x)")
    case None
    then have "psr_step D cs bk tmin smax acc x = Inr acc"
      by (simp add: psr_step_def)
    with None Cons.IH [of acc] show ?thesis
      by (auto simp: fun_eq_iff)
  next
    case (Some p)
    show ?thesis
    proof (cases "bk p")
      case None
      with Some have "psr_step D cs bk tmin smax acc x = Inl KeyError"
        by (simp add: psr_step_def getitem_def)
      with Some None show ?thesis by auto
    next
      case (Some g)
      let ?acc' = "acc(x \<mapsto> \<lparr>entry_pta = [p], entry_group = g\<rparr>)"
      note bx = \<open>best_pta (select_best D cs tmin smax x) = Some p\<close>
      from bx Some have "psr_step D cs bk tmin smax acc x = Inr ?acc'"
        by (simp add: psr_step_def getitem_def)
      then have unfold: "psr_loop D cs bk tmin smax acc (x # ns) = psr_loop D cs bk tmin smax ?acc' ns"
        by simp
      have cond: "(\<exists>n \<in> set (x # ns). \<exists>p. best_pta (select_best D cs tmin smax n) = Some p \<and> bk p = None)
          \<longleftrightarrow> (\<exists>n \<in> set ns. \<exists>p. best_pta (select_best D cs tmin smax n) = Some p \<and> bk p = None)"
        using bx Some by auto
      have tab: "(\<lambda>n. if n \<in> set ns then
                      (case best_pta (select_best D cs tmin smax n) of
                         None \<Rightarrow> ?acc' n
                       | Some p \<Rightarrow> map_option (\<lambda>g. \<lparr>entry_pta = [p], entry_group = g\<rparr>) (bk p))
                    else ?acc' n)
          = (\<lambda>n. if n \<in> set (x # ns) then
                      (case best_pta (select_best D cs tmin smax n) of
                         None \<Rightarrow> acc n
                       | Some p \<Rightarrow> map_option (\<lambda>g. \<lparr>entry_pta = [p], entry_group = g\<rparr>) (bk p))
                    else acc n)"
      proof (rule ext)
        fix n
        show "(if n \<in> set ns then
                 (case best_pta (select_best D cs tmin smax n) of
                    None \<Rightarrow> ?acc' n
                  | Some p \<Rightarrow> map_option (\<lambda>g. \<lparr>entry_pta = [p], entry_group = g\<rparr>) (bk p))
               else ?acc' n)
          = (if n \<in> set (x # ns) then
                 (case best_pta (select_best D cs tmin smax n) of
                    None \<Rightarrow> acc n
                  | Some p \<Rightarrow> map_option (\<lambda>g. \<lparr>entry_pta = [p], entry_group = g\<rparr>) (bk p))
               else acc n)"
        proof (cases "n = x")
          case True
          with bx Some show ?thesis by simp
        next
          case False
          then show ?thesis by (simp split: option.splits)
        qed
      qed
      show ?thesis
        by (simp only: unfold Cons.IH [of ?acc'] cond tab)
    qed
  qed
qed


lemma psr_loop_cong:
  assumes "\<And>n. n \<in> set ns \<Longrightarrow> select_best D cs tmin smax n = select_best D' cs tmin smax n"
  shows "psr_loop D cs bk tmin smax acc ns = psr_loop D' cs bk tmin smax acc ns"
  using assms
proof (induction ns arbitrary: acc)
  case Nil
  then show ?case by simp
next
  case (Cons x ns)
  have "psr_step D cs bk tmin smax acc x = psr_step D' cs bk tmin smax acc x"
    using Cons.prems [of x] by (simp add: psr_step_def)
  with Cons show ?case by (simp split: sum.splits)
qed

lemma ptas_have_backends: "set ptas \<subseteq> dom backends"
  by (simp add: ptas_def backends_def)

text \<open>
  Two runs on the example inputs.
\<close>

lemma ex_selector_eval:
  "selector (ex_dict (Fin 10) (Fin 25)) [''A'', ''B''] ex_backends (Fin 5) (Fin 10) [''J0000+0000'']
     = Inr [''J0000+0000'' \<mapsto> \<lparr>entry_pta = [''B''], entry_group = [''b1'']\<rparr>]"
  by (simp add: selector_def psr_step_def select_best_def pta_step_char qualifying_def
      record_of_def ex_dict_def mk_record_def ex_backends_def best_init_def float_gt_def
      getitem_def)

lemma zero_selector_eval:
  "selector (ex_dict (Fin 0) (Fin 0)) [''A'', ''B''] ex_backends (Fin 5) (Fin 10) [''J0000+0000'']
     = Inr Map.empty"
  by (simp add: selector_def psr_step_def select_best_def pta_step_def try_body_def
      ex_dict_def mk_record_def best_init_def float_gt_def getitem_def)


lemma absent_best_eval:
  "select_best absent_dict ptas Tmin sigmax ''J0437-4715''
     = \<lparr>best_pta = Some ''NANOGrav'', best_Tobs = Fin 8, best_FoM = Fin 25\<rparr>"
  by (simp add: select_best_def pta_step_def try_body_def absent_dict_def mk_record_def
      best_init_def float_gt_def getitem_def ptas_def Tmin_def sigmax_def)

section \<open>Properties of the selection\<close>

subsection \<open>The chosen collaboration\<close>

text \<open>
  C1 (as amended). For every pulsar the table holds at most one entry, and the entry
  names one collaboration. That collaboration is a candidate whose record qualifies
  (baseline above the minimum, uncertainty below the maximum) and whose FoM is the
  greatest among the qualifying records of the candidates: no qualifying record has a
  greater FoM, and every qualifying record of a candidate earlier in the order has a
  different FoM. The FoM need not be strictly greater than that of a later candidate.
  If no record of the pulsar qualifies, the pulsar has no entry.
\<close>

theorem selector_assigns_greatest:
  assumes "selector D cs bk tmin smax ns = Inr out"
  shows "(\<forall>e. out n = Some e \<longrightarrow>
            (\<exists>c t f xs ys. entry_pta e = [c] \<and> cs = xs @ c # ys \<and>
               select_best D cs tmin smax n =
                 \<lparr>best_pta = Some c, best_Tobs = t, best_FoM = f\<rparr> \<and>
               qualifying D tmin smax n c = Some (t, f) \<and>
               (\<forall>c' \<in> set cs. \<forall>t' f'. qualifying D tmin smax n c' = Some (t', f') \<longrightarrow>
                  \<not> float_gt f' f) \<and>
               (\<forall>c' \<in> set xs. \<forall>t' f'. qualifying D tmin smax n c' = Some (t', f') \<longrightarrow>
                  f' \<noteq> f))) \<and>
         ((\<forall>c \<in> set cs. qualifying D tmin smax n c = None) \<longrightarrow> out n = None)"
proof (intro conjI allI impI)
  fix e
  assume e: "out n = Some e"
  from selector_entry [OF assms e] obtain c where
    c: "best_pta (select_best D cs tmin smax n) = Some c" "entry_pta e = [c]"
    by blast
  from select_best_Some [OF c(1)] obtain xs ys t f where
    h: "cs = xs @ c # ys" "qualifying D tmin smax n c = Some (t, f)"
       "select_best D cs tmin smax n = \<lparr>best_pta = Some c, best_Tobs = t, best_FoM = f\<rparr>"
       "\<forall>c' \<in> set xs. \<forall>t' f'. qualifying D tmin smax n c' = Some (t', f') \<longrightarrow>
          \<not> float_gt f' f \<and> f' \<noteq> f"
    by blast
  have upper: "\<forall>c' \<in> set cs. \<forall>t' f'. qualifying D tmin smax n c' = Some (t', f') \<longrightarrow>
      \<not> float_gt f' f"
    using select_best_upper [of _ cs D tmin smax n] h(3) by fastforce
  from c(2) h upper
  show "\<exists>c t f xs ys. entry_pta e = [c] \<and> cs = xs @ c # ys \<and>
      select_best D cs tmin smax n = \<lparr>best_pta = Some c, best_Tobs = t, best_FoM = f\<rparr> \<and>
      qualifying D tmin smax n c = Some (t, f) \<and>
      (\<forall>c' \<in> set cs. \<forall>t' f'. qualifying D tmin smax n c' = Some (t', f') \<longrightarrow>
         \<not> float_gt f' f) \<and>
      (\<forall>c' \<in> set xs. \<forall>t' f'. qualifying D tmin smax n c' = Some (t', f') \<longrightarrow> f' \<noteq> f)"
    by blast
next
  assume none: "\<forall>c \<in> set cs. qualifying D tmin smax n c = None"
  show "out n = None"
  proof (cases "out n")
    case None
    then show ?thesis .
  next
    case (Some e)
    from selector_entry [OF assms Some] obtain c where
      c: "best_pta (select_best D cs tmin smax n) = Some c"
      by blast
    from select_best_Some [OF c] none show ?thesis by auto
  qed
qed

text \<open>
  The end-to-end scenario of the specification: \<open>B\<close> with FoM 25 is chosen over
  \<open>A\<close> with FoM 10.
\<close>

theorem selector_assigns_greatest_witness:
  "selector (ex_dict (Fin 10) (Fin 25)) [''A'', ''B''] ex_backends (Fin 5) (Fin 10) [''J0000+0000'']
     = Inr [''J0000+0000'' \<mapsto> \<lparr>entry_pta = [''B''], entry_group = [''b1'']\<rparr>] \<and>
   (\<exists>t f. select_best (ex_dict (Fin 10) (Fin 25)) [''A'', ''B''] (Fin 5) (Fin 10) ''J0000+0000''
             = \<lparr>best_pta = Some ''B'', best_Tobs = t, best_FoM = f\<rparr> \<and>
          qualifying (ex_dict (Fin 10) (Fin 25)) (Fin 5) (Fin 10) ''J0000+0000'' ''B'' = Some (t, f) \<and>
          \<not> float_gt (Fin 10) f)"
proof -
  let ?D = "ex_dict (Fin 10) (Fin 25)"
  let ?out = "[''J0000+0000'' \<mapsto> \<lparr>entry_pta = [''B''], entry_group = [''b1'']\<rparr>]"
  have run: "selector ?D [''A'', ''B''] ex_backends (Fin 5) (Fin 10) [''J0000+0000''] = Inr ?out"
    by (rule ex_selector_eval)
  have qa: "qualifying ?D (Fin 5) (Fin 10) ''J0000+0000'' ''A'' = Some (Fin 6, Fin 10)"
    by (simp add: qualifying_def record_of_def ex_dict_def mk_record_def float_gt_def)
  from selector_assigns_greatest [OF run, of "''J0000+0000''"]
  obtain c t f where
    h: "[''B''] = [c]"
       "select_best ?D [''A'', ''B''] (Fin 5) (Fin 10) ''J0000+0000''
          = \<lparr>best_pta = Some c, best_Tobs = t, best_FoM = f\<rparr>"
       "qualifying ?D (Fin 5) (Fin 10) ''J0000+0000'' c = Some (t, f)"
       "\<forall>c' \<in> set [''A'', ''B'']. \<forall>t' f'.
          qualifying ?D (Fin 5) (Fin 10) ''J0000+0000'' c' = Some (t', f') \<longrightarrow> \<not> float_gt f' f"
    by auto
  from h(4) qa have "\<not> float_gt (Fin 10) f" by simp
  with run h show ?thesis by auto
qed

text \<open>
  PPTA and EPTA both qualify with FoM 10. PPTA is assigned, and its FoM is not
  strictly greater than the FoM of EPTA's qualifying record.
\<close>

theorem strictly_greatest_counterexample:
  "(case selector tie_dict ptas backends Tmin sigmax [''J0437-4715''] of
      Inl e \<Rightarrow> None
    | Inr out \<Rightarrow> map_option entry_pta (out ''J0437-4715'')) = Some [''PPTA''] \<and>
   select_best tie_dict ptas Tmin sigmax ''J0437-4715''
     = \<lparr>best_pta = Some ''PPTA'', best_Tobs = Fin 6, best_FoM = Fin 10\<rparr> \<and>
   qualifying tie_dict Tmin sigmax ''J0437-4715'' ''EPTA'' = Some (Fin 8, Fin 10) \<and>
   \<not> float_gt (Fin 10) (Fin 10)"
  by (simp add: selector_def psr_step_def select_best_def pta_step_def try_body_def
      qualifying_def record_of_def tie_dict_def mk_record_def backends_def best_init_def
      float_gt_def getitem_def ptas_def Tmin_def sigmax_def)

subsection \<open>Records on a threshold\<close>

text \<open>
  C3. A record whose baseline equals the minimum baseline does not qualify, and a
  record whose uncertainty equals the maximum uncertainty does not qualify: the step
  leaves \<open>best\<close> as it is, the inner loop never chooses that collaboration, and no
  entry of the table names it for the pulsar.
\<close>

theorem threshold_exclusion:
  assumes "record_of D n c = Some r"
    and "r ''Tobs'' = Some tmin \<or> r ''sigma'' = Some smax"
  shows "pta_step D tmin smax n b c = b \<and>
         best_pta (select_best D cs tmin smax n) \<noteq> Some c \<and>
         (\<forall>out e. selector D cs bk tmin smax ns = Inr out \<and> out n = Some e \<longrightarrow>
            entry_pta e \<noteq> [c])"
proof -
  have q: "qualifying D tmin smax n c = None"
    using assms by (rule qualifying_on_threshold)
  have never: "best_pta (select_best D cs tmin smax n) \<noteq> Some c"
    using q by (rule not_qualifying_not_chosen)
  have "entry_pta e \<noteq> [c]"
    if "selector D cs bk tmin smax ns = Inr out" and "out n = Some e" for out e
    using selector_entry [OF that] never by auto
  with q never show ?thesis by (simp add: not_qualifying_skip)
qed

text \<open>
  With minimum baseline 5 and maximum uncertainty 10: \<open>A\<close> has baseline exactly 5,
  \<open>B\<close> has uncertainty exactly 10, and neither is chosen.
\<close>

theorem threshold_exclusion_witness:
  "pta_step edge_dict (Fin 5) (Fin 10) ''J0000+0000'' best_init ''A'' = best_init \<and>
   pta_step edge_dict (Fin 5) (Fin 10) ''J0000+0000'' best_init ''B'' = best_init \<and>
   best_pta (select_best edge_dict [''A'', ''B''] (Fin 5) (Fin 10) ''J0000+0000'') \<noteq> Some ''A'' \<and>
   best_pta (select_best edge_dict [''A'', ''B''] (Fin 5) (Fin 10) ''J0000+0000'') \<noteq> Some ''B''"
proof -
  have ra: "record_of edge_dict ''J0000+0000'' ''A'' = Some (mk_record (Fin 5) (Fin 20) (Fin 2) (Fin 10))"
    by (simp add: record_of_def edge_dict_def)
  have ta: "mk_record (Fin 5) (Fin 20) (Fin 2) (Fin 10) ''Tobs'' = Some (Fin 5) \<or>
            mk_record (Fin 5) (Fin 20) (Fin 2) (Fin 10) ''sigma'' = Some (Fin 10)"
    by (simp add: mk_record_def)
  have rb: "record_of edge_dict ''J0000+0000'' ''B'' = Some (mk_record (Fin 8) (Fin 15) (Fin 10) (Fin 25))"
    by (simp add: record_of_def edge_dict_def)
  have tb: "mk_record (Fin 8) (Fin 15) (Fin 10) (Fin 25) ''Tobs'' = Some (Fin 5) \<or>
            mk_record (Fin 8) (Fin 15) (Fin 10) (Fin 25) ''sigma'' = Some (Fin 10)"
    by (simp add: mk_record_def)
  from threshold_exclusion [OF ra ta, of best_init "[''A'', ''B'']"]
       threshold_exclusion [OF rb tb, of best_init "[''A'', ''B'']"]
  show ?thesis by simp
qed

subsection \<open>Ties\<close>

lemma later_occurrence:
  assumes "xs @ p # ys = xs' @ q # ys'" and "q \<notin> set xs" and "q \<noteq> p"
  shows "p \<in> set xs'"
  using assms
  by (auto simp: append_eq_append_conv2 Cons_eq_append_conv append_eq_Cons_conv)

lemma tie_select_best:
  assumes "cs = xs @ p # ys" and "qualifying D tmin smax n p = Some (tp, f)"
    and "float_gt f (Fin 0)"
    and "\<forall>c \<in> set xs. \<forall>t' f'. qualifying D tmin smax n c = Some (t', f') \<longrightarrow>
           \<not> float_gt f' f \<and> f' \<noteq> f"
    and "\<forall>c \<in> set ys. \<forall>t' f'. qualifying D tmin smax n c = Some (t', f') \<longrightarrow>
           \<not> float_gt f' f"
  shows "select_best D cs tmin smax n = \<lparr>best_pta = Some p, best_Tobs = tp, best_FoM = f\<rparr>"
proof -
  let ?step = "pta_step D tmin smax n"
  let ?R = "foldl ?step best_init xs"
  have before: "float_gt f (best_FoM ?R)"
    using fold_char [of D tmin smax n best_init xs]
  proof
    assume "?R = best_init"
    with assms(3) show ?thesis by (simp add: best_init_def)
  next
    assume "\<exists>xs' ys' c t g. xs = xs' @ c # ys' \<and> qualifying D tmin smax n c = Some (t, g) \<and>
      ?R = \<lparr>best_pta = Some c, best_Tobs = t, best_FoM = g\<rparr> \<and>
      float_gt g (best_FoM best_init) \<and>
      (\<forall>c' \<in> set xs'. \<forall>t' f'. qualifying D tmin smax n c' = Some (t', f') \<longrightarrow>
         \<not> float_gt f' g \<and> f' \<noteq> g)"
    then obtain xs' ys' c t g where
      h: "xs = xs' @ c # ys'" "qualifying D tmin smax n c = Some (t, g)"
         "?R = \<lparr>best_pta = Some c, best_Tobs = t, best_FoM = g\<rparr>"
         "float_gt g (best_FoM best_init)"
      by blast
    from h(1) have "c \<in> set xs" by simp
    with assms(4) h(2) have "\<not> float_gt g f" "g \<noteq> f" by blast+
    moreover from assms(3) have "f \<noteq> NaN" by (rule float_gt_not_NaN)
    moreover from h(4) have "g \<noteq> NaN" by (rule float_gt_not_NaN)
    ultimately have "float_gt f g" using float_gt_total [of f g] by blast
    with h(3) show ?thesis by simp
  qed
  with assms(2) have at_p: "?step ?R p = \<lparr>best_pta = Some p, best_Tobs = tp, best_FoM = f\<rparr>"
    by (simp add: pta_step_char)
  have "foldl ?step \<lparr>best_pta = Some p, best_Tobs = tp, best_FoM = f\<rparr> ys
          = \<lparr>best_pta = Some p, best_Tobs = tp, best_FoM = f\<rparr>"
    using assms(5) by (intro fold_stay) simp
  with at_p assms(1) show ?thesis
    by (simp add: select_best_def)
qed

lemma tie_later_not_chosen:
  assumes "cs = xs @ p # ys" and "qualifying D tmin smax n p = Some (tp, f)"
    and "q \<notin> set xs" and "q \<noteq> p" and "qualifying D tmin smax n q = Some (tq, f)"
  shows "best_pta (select_best D cs tmin smax n) \<noteq> Some q"
proof
  assume "best_pta (select_best D cs tmin smax n) = Some q"
  from select_best_Some [OF this] assms(5) obtain xs' ys' where
    h: "cs = xs' @ q # ys'"
       "\<forall>c' \<in> set xs'. \<forall>t' f'. qualifying D tmin smax n c' = Some (t', f') \<longrightarrow> f' \<noteq> f"
    by auto
  from assms(1) h(1) have "xs @ p # ys = xs' @ q # ys'" by simp
  with assms(3,4) have "p \<in> set xs'" by (auto dest: later_occurrence)
  with h(2) assms(2) show False by blast
qed

text \<open>
  C4 (as amended). Let \<open>p\<close> be a candidate with a qualifying record of FoM \<open>f\<close>.
  A collaboration that does not stand before \<open>p\<close> in the candidate order and has a
  qualifying record of the same FoM is never chosen and never named in the table: the
  earlier collaboration wins the tie. When moreover \<open>f\<close> is greater than 0, no
  qualifying candidate after \<open>p\<close> has a greater FoM and every qualifying candidate before
  \<open>p\<close> has a smaller one, \<open>p\<close> is chosen, every table the cell returns for a pulsar
  list that contains the pulsar assigns \<open>p\<close> to it, and the cell does return a table
  when every candidate has backends. A tie at FoM 0 assigns nobody.
\<close>

theorem first_candidate_wins_ties:
  assumes "cs = xs @ p # ys" and "qualifying D tmin smax n p = Some (tp, f)"
  shows "(\<forall>q tq. q \<notin> set xs \<and> q \<noteq> p \<and> qualifying D tmin smax n q = Some (tq, f) \<longrightarrow>
            best_pta (select_best D cs tmin smax n) \<noteq> Some q \<and>
            (\<forall>out e. selector D cs bk tmin smax ns = Inr out \<and> out n = Some e \<longrightarrow>
               entry_pta e \<noteq> [q])) \<and>
         (float_gt f (Fin 0) \<and>
          (\<forall>c \<in> set xs. \<forall>t' f'. qualifying D tmin smax n c = Some (t', f') \<longrightarrow>
             \<not> float_gt f' f \<and> f' \<noteq> f) \<and>
          (\<forall>c \<in> set ys. \<forall>t' f'. qualifying D tmin smax n c = Some (t', f') \<longrightarrow>
             \<not> float_gt f' f) \<longrightarrow>
            select_best D cs tmin smax n = \<lparr>best_pta = Some p, best_Tobs = tp, best_FoM = f\<rparr> \<and>
            (\<forall>out. selector D cs bk tmin smax ns = Inr out \<and> n \<in> set ns \<longrightarrow>
               (\<exists>g. out n = Some \<lparr>entry_pta = [p], entry_group = g\<rparr>)) \<and>
            (set cs \<subseteq> dom bk \<and> n \<in> set ns \<longrightarrow>
               (\<exists>out g. selector D cs bk tmin smax ns = Inr out \<and>
                  out n = Some \<lparr>entry_pta = [p], entry_group = g\<rparr>)))"
proof -
  have later: "best_pta (select_best D cs tmin smax n) \<noteq> Some q \<and>
      (\<forall>out e. selector D cs bk tmin smax ns = Inr out \<and> out n = Some e \<longrightarrow> entry_pta e \<noteq> [q])"
    if "q \<notin> set xs \<and> q \<noteq> p \<and> qualifying D tmin smax n q = Some (tq, f)" for q tq
  proof -
    from that have never: "best_pta (select_best D cs tmin smax n) \<noteq> Some q"
      using tie_later_not_chosen [OF assms, of q tq] by blast
    have "entry_pta e \<noteq> [q]"
      if "selector D cs bk tmin smax ns = Inr out" and "out n = Some e" for out e
      using selector_entry [OF that] never by auto
    with never show ?thesis by blast
  qed
  have first: "select_best D cs tmin smax n = \<lparr>best_pta = Some p, best_Tobs = tp, best_FoM = f\<rparr> \<and>
      (\<forall>out. selector D cs bk tmin smax ns = Inr out \<and> n \<in> set ns \<longrightarrow>
         (\<exists>g. out n = Some \<lparr>entry_pta = [p], entry_group = g\<rparr>)) \<and>
      (set cs \<subseteq> dom bk \<and> n \<in> set ns \<longrightarrow>
         (\<exists>out g. selector D cs bk tmin smax ns = Inr out \<and>
            out n = Some \<lparr>entry_pta = [p], entry_group = g\<rparr>))"
    if a: "float_gt f (Fin 0) \<and>
      (\<forall>c \<in> set xs. \<forall>t' f'. qualifying D tmin smax n c = Some (t', f') \<longrightarrow>
         \<not> float_gt f' f \<and> f' \<noteq> f) \<and>
      (\<forall>c \<in> set ys. \<forall>t' f'. qualifying D tmin smax n c = Some (t', f') \<longrightarrow>
         \<not> float_gt f' f)"
  proof -
    from a have sel: "select_best D cs tmin smax n
        = \<lparr>best_pta = Some p, best_Tobs = tp, best_FoM = f\<rparr>"
      by (intro tie_select_best [OF assms]) blast+
    then have bp: "best_pta (select_best D cs tmin smax n) = Some p"
      by simp
    have run: "\<exists>g. out n = Some \<lparr>entry_pta = [p], entry_group = g\<rparr>"
      if "selector D cs bk tmin smax ns = Inr out" and "n \<in> set ns" for out
    proof -
      from assms(1) have "p \<in> set cs" by simp
      from psr_loop_char [of D cs bk tmin smax Map.empty ns] that(1)
      have "\<not> (\<exists>n \<in> set ns. \<exists>p. best_pta (select_best D cs tmin smax n) = Some p \<and> bk p = None)"
        by (auto simp: selector_def split: if_splits)
      with that(2) bp obtain g where g: "bk p = Some g" by (cases "bk p") blast+
      from selector_lookup [OF that(1), of n] that(2) bp g show ?thesis by simp
    qed
    have total: "\<exists>out g. selector D cs bk tmin smax ns = Inr out \<and>
        out n = Some \<lparr>entry_pta = [p], entry_group = g\<rparr>"
      if "set cs \<subseteq> dom bk \<and> n \<in> set ns"
      using selector_assigned [of cs bk n ns D tmin smax p] that bp by blast
    from sel run total show ?thesis by blast
  qed
  from later first show ?thesis by blast
qed

text \<open>
  PPTA and EPTA tie at FoM 10 in the order PPTA, EPTA, NANOGrav, with the backends of
  the source: the table assigns PPTA.
\<close>

theorem first_candidate_wins_ties_witness:
  "best_pta (select_best tie_dict ptas Tmin sigmax ''J0437-4715'') \<noteq> Some ''EPTA'' \<and>
   select_best tie_dict ptas Tmin sigmax ''J0437-4715''
     = \<lparr>best_pta = Some ''PPTA'', best_Tobs = Fin 6, best_FoM = Fin 10\<rparr> \<and>
   (\<exists>out g. selector tie_dict ptas backends Tmin sigmax [''J0437-4715''] = Inr out \<and>
      out ''J0437-4715'' = Some \<lparr>entry_pta = [''PPTA''], entry_group = g\<rparr>)"
proof -
  have cs: "ptas = [] @ ''PPTA'' # [''EPTA'', ''NANOGrav'']"
    by (simp add: ptas_def)
  have qp: "qualifying tie_dict Tmin sigmax ''J0437-4715'' ''PPTA'' = Some (Fin 6, Fin 10)"
    by (simp add: qualifying_def record_of_def tie_dict_def mk_record_def float_gt_def
        Tmin_def sigmax_def)
  have qe: "qualifying tie_dict Tmin sigmax ''J0437-4715'' ''EPTA'' = Some (Fin 8, Fin 10)"
    by (simp add: qualifying_def record_of_def tie_dict_def mk_record_def float_gt_def
        Tmin_def sigmax_def)
  have qn: "qualifying tie_dict Tmin sigmax ''J0437-4715'' ''NANOGrav'' = None"
    by (simp add: qualifying_def record_of_def tie_dict_def)
  have pos: "float_gt (Fin 10) (Fin 0)"
    by (simp add: float_gt_def)
  have later: "\<forall>c \<in> set [''EPTA'', ''NANOGrav'']. \<forall>t' f'.
      qualifying tie_dict Tmin sigmax ''J0437-4715'' c = Some (t', f') \<longrightarrow> \<not> float_gt f' (Fin 10)"
    using qe qn by (simp add: float_gt_def)
  have inlist: "''J0437-4715'' \<in> set [''J0437-4715'']"
    by simp
  from first_candidate_wins_ties [OF cs qp, of backends "[''J0437-4715'']"]
    qe pos later ptas_have_backends inlist
  show ?thesis by auto
qed

text \<open>
  \<open>A\<close> and \<open>B\<close> both qualify with FoM 0: the pulsar gets no entry, so the first
  collaboration of the order is not assigned.
\<close>

theorem zero_tie_counterexample:
  "qualifying (ex_dict (Fin 0) (Fin 0)) (Fin 5) (Fin 10) ''J0000+0000'' ''A'' = Some (Fin 6, Fin 0) \<and>
   qualifying (ex_dict (Fin 0) (Fin 0)) (Fin 5) (Fin 10) ''J0000+0000'' ''B'' = Some (Fin 8, Fin 0) \<and>
   best_pta (select_best (ex_dict (Fin 0) (Fin 0)) [''A'', ''B''] (Fin 5) (Fin 10) ''J0000+0000'') = None \<and>
   selector (ex_dict (Fin 0) (Fin 0)) [''A'', ''B''] ex_backends (Fin 5) (Fin 10) [''J0000+0000'']
     = Inr Map.empty"
  by (simp add: selector_def psr_step_def select_best_def pta_step_def try_body_def
      qualifying_def record_of_def ex_dict_def mk_record_def best_init_def float_gt_def getitem_def)

subsection \<open>No surviving epochs\<close>

lemma FoM_entry_empty:
  "FoM_entry toa_stats my_FoM [] = Inr (mk_record (Fin 0) PosInf PosInf (Fin 0))"
  by (simp add: FoM_entry_def)

lemma sentinel_not_qualifying:
  assumes "record_of D n c = Some (mk_record (Fin 0) PosInf PosInf (Fin 0))"
  shows "qualifying D tmin smax n c = None"
proof -
  have "\<not> float_lt PosInf smax" by (cases smax) simp_all
  with assms show ?thesis by (simp add: qualifying_def mk_record_def)
qed

text \<open>
  C5. For an empty array of surviving epochs the summarisation does not fail, whatever
  the statistics would do on the empty array: it writes the record with baseline 0,
  uncertainty \<open>+\<infinity>\<close>, cadence \<open>+\<infinity>\<close> and FoM 0. Whatever the thresholds are (positive
  ones in particular), the comparisons of the selection step reject that record: the
  step leaves \<open>best\<close> as it is and the collaboration is never assigned to the pulsar.
\<close>

theorem no_epochs_sentinel_excluded:
  "(\<exists>r. FoM_entry toa_stats my_FoM [] = Inr r \<and>
      r ''Tobs'' = Some (Fin 0) \<and> r ''sigma'' = Some PosInf \<and>
      r ''dt'' = Some PosInf \<and> r ''FoM'' = Some (Fin 0)) \<and>
   (\<forall>r. FoM_entry toa_stats my_FoM [] = Inr r \<and> record_of D n c = Some r \<longrightarrow>
      pta_step D tmin smax n b c = b \<and>
      best_pta (select_best D cs tmin smax n) \<noteq> Some c \<and>
      (\<forall>out e. selector D cs bk tmin smax ns = Inr out \<and> out n = Some e \<longrightarrow>
         entry_pta e \<noteq> [c]))"
proof -
  have written: "\<exists>r. FoM_entry toa_stats my_FoM [] = Inr r \<and>
      r ''Tobs'' = Some (Fin 0) \<and> r ''sigma'' = Some PosInf \<and>
      r ''dt'' = Some PosInf \<and> r ''FoM'' = Some (Fin 0)"
    by (simp add: FoM_entry_empty mk_record_def)
  have rejected: "pta_step D tmin smax n b c = b \<and>
      best_pta (select_best D cs tmin smax n) \<noteq> Some c \<and>
      (\<forall>out e. selector D cs bk tmin smax ns = Inr out \<and> out n = Some e \<longrightarrow>
         entry_pta e \<noteq> [c])"
    if "FoM_entry toa_stats my_FoM [] = Inr r \<and> record_of D n c = Some r" for r
  proof -
    from that have q: "qualifying D tmin smax n c = None"
      by (auto simp: FoM_entry_empty sentinel_not_qualifying)
    have never: "best_pta (select_best D cs tmin smax n) \<noteq> Some c"
      using q by (rule not_qualifying_not_chosen)
    have "entry_pta e \<noteq> [c]"
      if "selector D cs bk tmin smax ns = Inr out" and "out n = Some e" for out e
      using selector_entry [OF that] never by auto
    with q never show ?thesis
      by (simp add: not_qualifying_skip)
  qed
  from written rejected show ?thesis by blast
qed

text \<open>
  Collaboration \<open>A\<close> without surviving epochs, statistics that raise on the empty
  array, thresholds 5 and 10: the record is written, and \<open>A\<close> is not chosen.
\<close>

theorem no_epochs_sentinel_excluded_witness:
  "FoM_entry (\<lambda>_ :: real list. Inl ValueError) (\<lambda>_ _ _. NaN) []
     = Inr (mk_record (Fin 0) PosInf PosInf (Fin 0)) \<and>
   record_of no_epochs_dict ''J0000+0000'' ''A'' = Some (mk_record (Fin 0) PosInf PosInf (Fin 0)) \<and>
   pta_step no_epochs_dict (Fin 5) (Fin 10) ''J0000+0000'' best_init ''A'' = best_init \<and>
   best_pta (select_best no_epochs_dict [''A'', ''B''] (Fin 5) (Fin 10) ''J0000+0000'') \<noteq> Some ''A''"
proof -
  have e: "FoM_entry (\<lambda>_ :: real list. Inl ValueError) (\<lambda>_ _ _. NaN) []
     = Inr (mk_record (Fin 0) PosInf PosInf (Fin 0))"
    by (simp add: FoM_entry_def)
  have r: "record_of no_epochs_dict ''J0000+0000'' ''A''
     = Some (mk_record (Fin 0) PosInf PosInf (Fin 0))"
    by (simp add: record_of_def no_epochs_dict_def)
  from no_epochs_sentinel_excluded
    [of "\<lambda>_ :: real list. Inl ValueError" "\<lambda>_ _ _. NaN" no_epochs_dict "''J0000+0000''" "''A''"
        "Fin 5" "Fin 10" best_init "[''A'', ''B'']"] e r
  show ?thesis by simp
qed

subsection \<open>Absent and partial records\<close>

text \<open>
  C6. When the record of a (pulsar, collaboration) pair is absent, the lookup raises
  \<open>KeyError\<close> inside the \<open>try\<close>, the handler leaves \<open>best\<close> as it is, and the inner
  loop gives the result it gives on the remaining candidates. The run ends normally
  with a table whenever every candidate has backends, as in the source's configuration,
  and the remaining records decide that table: if the pulsar is in the list and some
  candidate has a qualifying record with FoM above 0, the table assigns the pulsar a
  candidate other than the absent one, with a qualifying record whose FoM is not below
  that FoM.
\<close>

theorem absent_record_skipped:
  assumes "record_of D n c = None"
  shows "try_body D tmin smax n b c = Inl KeyError \<and>
         pta_step D tmin smax n b c = b \<and>
         select_best D cs tmin smax n = select_best D (removeAll c cs) tmin smax n \<and>
         (set cs \<subseteq> dom bk \<longrightarrow>
            (\<exists>out. selector D cs bk tmin smax ns = Inr out \<and>
               (n \<in> set ns \<longrightarrow>
                  (\<forall>c' t f. c' \<in> set cs \<and> qualifying D tmin smax n c' = Some (t, f) \<and>
                       float_gt f (Fin 0) \<longrightarrow>
                     (\<exists>p g t' f'. out n = Some \<lparr>entry_pta = [p], entry_group = g\<rparr> \<and>
                        p \<noteq> c \<and> p \<in> set cs \<and>
                        qualifying D tmin smax n p = Some (t', f') \<and> \<not> float_gt f f')))))"
proof (intro conjI impI)
  show "try_body D tmin smax n b c = Inl KeyError"
    using assms by (auto simp: try_body_def getitem_def record_of_def split: option.splits)
  have skip: "pta_step D tmin smax n b' c = b'" for b'
    using assms by (simp add: qualifying_absent not_qualifying_skip)
  then show "pta_step D tmin smax n b c = b" .
  show "select_best D cs tmin smax n = select_best D (removeAll c cs) tmin smax n"
    unfolding select_best_def using skip by (simp add: fold_skip)
next
  assume cover: "set cs \<subseteq> dom bk"
  from selector_total [OF cover] obtain out where
    out: "selector D cs bk tmin smax ns = Inr out"
    by blast
  have rest: "\<exists>p g t' f'. out n = Some \<lparr>entry_pta = [p], entry_group = g\<rparr> \<and>
      p \<noteq> c \<and> p \<in> set cs \<and> qualifying D tmin smax n p = Some (t', f') \<and> \<not> float_gt f f'"
    if n: "n \<in> set ns"
      and c': "c' \<in> set cs \<and> qualifying D tmin smax n c' = Some (t, f) \<and> float_gt f (Fin 0)"
    for c' t f
  proof -
    from c' obtain p where p: "best_pta (select_best D cs tmin smax n) = Some p"
      using select_best_exists [of c' cs D tmin smax n t f] by blast
    from select_best_Some [OF p] obtain t' f' where
      h: "qualifying D tmin smax n p = Some (t', f')"
         "select_best D cs tmin smax n = \<lparr>best_pta = Some p, best_Tobs = t', best_FoM = f'\<rparr>"
      by blast
    from h(1) assms have ne: "p \<noteq> c"
      by (auto simp: qualifying_absent)
    from c' have "\<not> float_gt f (best_FoM (select_best D cs tmin smax n))"
      using select_best_upper [of c' cs D tmin smax n t f] by blast
    with h(2) have le: "\<not> float_gt f f'" by simp
    from selector_assigned [OF cover n p] out obtain g where
      "out n = Some \<lparr>entry_pta = [p], entry_group = g\<rparr>"
      by auto
    with ne h(1) le select_best_candidate [OF p] show ?thesis by blast
  qed
  with out show "\<exists>out. selector D cs bk tmin smax ns = Inr out \<and>
      (n \<in> set ns \<longrightarrow>
         (\<forall>c' t f. c' \<in> set cs \<and> qualifying D tmin smax n c' = Some (t, f) \<and>
              float_gt f (Fin 0) \<longrightarrow>
            (\<exists>p g t' f'. out n = Some \<lparr>entry_pta = [p], entry_group = g\<rparr> \<and>
               p \<noteq> c \<and> p \<in> set cs \<and>
               qualifying D tmin smax n p = Some (t', f') \<and> \<not> float_gt f f')))"
    by blast
qed

text \<open>
  EPTA, the second candidate, has no record: the step at EPTA keeps the \<open>best\<close> found
  at PPTA, the loop goes on to NANOGrav, and the table assigns NANOGrav.
\<close>

theorem absent_record_skipped_witness:
  "try_body absent_dict Tmin sigmax ''J0437-4715''
      \<lparr>best_pta = Some ''PPTA'', best_Tobs = Fin 6, best_FoM = Fin 10\<rparr> ''EPTA'' = Inl KeyError \<and>
   pta_step absent_dict Tmin sigmax ''J0437-4715''
      \<lparr>best_pta = Some ''PPTA'', best_Tobs = Fin 6, best_FoM = Fin 10\<rparr> ''EPTA''
     = \<lparr>best_pta = Some ''PPTA'', best_Tobs = Fin 6, best_FoM = Fin 10\<rparr> \<and>
   select_best absent_dict ptas Tmin sigmax ''J0437-4715''
     = select_best absent_dict [''PPTA'', ''NANOGrav''] Tmin sigmax ''J0437-4715'' \<and>
   select_best absent_dict ptas Tmin sigmax ''J0437-4715''
     = \<lparr>best_pta = Some ''NANOGrav'', best_Tobs = Fin 8, best_FoM = Fin 25\<rparr> \<and>
   (\<exists>out g. selector absent_dict ptas backends Tmin sigmax [''J0437-4715''] = Inr out \<and>
      out ''J0437-4715'' = Some \<lparr>entry_pta = [''NANOGrav''], entry_group = g\<rparr>)"
proof -
  let ?b = "\<lparr>best_pta = Some ''PPTA'', best_Tobs = Fin 6, best_FoM = Fin 10\<rparr>"
  have r: "record_of absent_dict ''J0437-4715'' ''EPTA'' = None"
    by (simp add: record_of_def absent_dict_def)
  have rm: "removeAll ''EPTA'' ptas = [''PPTA'', ''NANOGrav'']"
    by (simp add: ptas_def)
  have qp: "''PPTA'' \<in> set ptas \<and>
      qualifying absent_dict Tmin sigmax ''J0437-4715'' ''PPTA'' = Some (Fin 6, Fin 10) \<and>
      float_gt (Fin 10) (Fin 0)"
    by (simp add: qualifying_def record_of_def absent_dict_def mk_record_def float_gt_def
        Tmin_def sigmax_def ptas_def)
  note inst = absent_record_skipped [OF r, of Tmin sigmax ?b ptas backends "[''J0437-4715'']"]
  from inst ptas_have_backends obtain out where
    out: "selector absent_dict ptas backends Tmin sigmax [''J0437-4715''] = Inr out"
    and rest: "\<forall>c' t f. c' \<in> set ptas \<and>
         qualifying absent_dict Tmin sigmax ''J0437-4715'' c' = Some (t, f) \<and> float_gt f (Fin 0) \<longrightarrow>
       (\<exists>p g t' f'. out ''J0437-4715'' = Some \<lparr>entry_pta = [p], entry_group = g\<rparr> \<and>
          p \<noteq> ''EPTA'' \<and> p \<in> set ptas \<and>
          qualifying absent_dict Tmin sigmax ''J0437-4715'' p = Some (t', f') \<and>
          \<not> float_gt (f) f')"
    by auto
  from rest qp obtain p g where
    e: "out ''J0437-4715'' = Some \<lparr>entry_pta = [p], entry_group = g\<rparr>"
    by blast
  from selector_entry [OF out e] absent_best_eval have "p = ''NANOGrav''"
    by simp
  with out e have table: "\<exists>out g. selector absent_dict ptas backends Tmin sigmax [''J0437-4715'']
      = Inr out \<and> out ''J0437-4715'' = Some \<lparr>entry_pta = [''NANOGrav''], entry_group = g\<rparr>"
    by blast
  from inst rm absent_best_eval table show ?thesis
    by simp
qed

lemma record_of_removed:
  assumes "D n = Some d"
  shows "record_of (D(n \<mapsto> d(c := None))) n' c' =
           (if n' = n \<and> c' = c then None else record_of D n' c')"
  using assms by (simp add: record_of_def)

text \<open>
  C9. When the record of a pair is present but lacks \<open>'Tobs'\<close>, \<open>'sigma'\<close> or
  \<open>'FoM'\<close>, the \<open>try\<close> block either raises \<open>KeyError\<close>, which the same handler
  catches, or ends without touching \<open>best\<close>. The step, the inner loop and the whole
  table are the ones obtained when the record is removed from the dictionary, and the
  run ends normally whenever every candidate has backends.
\<close>

theorem partial_record_skipped:
  assumes "D n = Some d" and "d c = Some r"
    and "r ''Tobs'' = None \<or> r ''sigma'' = None \<or> r ''FoM'' = None"
  shows "(try_body D tmin smax n b c = Inl KeyError \<or> try_body D tmin smax n b c = Inr b) \<and>
         pta_step D tmin smax n b c = b \<and>
         pta_step D tmin smax n b c = pta_step (D(n \<mapsto> d(c := None))) tmin smax n b c \<and>
         select_best D cs tmin smax n = select_best (D(n \<mapsto> d(c := None))) cs tmin smax n \<and>
         selector D cs bk tmin smax ns = selector (D(n \<mapsto> d(c := None))) cs bk tmin smax ns \<and>
         (set cs \<subseteq> dom bk \<longrightarrow> (\<exists>out. selector D cs bk tmin smax ns = Inr out))"
proof (intro conjI impI)
  let ?D' = "D(n \<mapsto> d(c := None))"
  have rec: "record_of D n c = Some r"
    using assms(1,2) by (simp add: record_of_def)
  show "try_body D tmin smax n b c = Inl KeyError \<or> try_body D tmin smax n b c = Inr b"
    using assms by (auto simp: try_body_def getitem_def split: option.splits)
  have q: "qualifying D tmin smax n c = None"
    using rec assms(3) by (rule qualifying_partial)
  then show skip: "pta_step D tmin smax n b c = b"
    by (rule not_qualifying_skip)
  have same: "qualifying D tmin smax n' c' = qualifying ?D' tmin smax n' c'" for n' c'
  proof (cases "n' = n \<and> c' = c")
    case True
    with q show ?thesis
      by (simp add: qualifying_absent record_of_removed [of D n d, OF assms(1)])
  next
    case False
    then have "record_of ?D' n' c' = record_of D n' c'"
      by (auto simp: record_of_removed [of D n d, OF assms(1)])
    then show ?thesis
      by (simp add: qualifying_def)
  qed
  then show "pta_step D tmin smax n b c = pta_step ?D' tmin smax n b c"
    by (simp add: pta_step_char)
  have best: "select_best D cs tmin smax n' = select_best ?D' cs tmin smax n'" for n'
    using same by (intro select_best_cong) simp
  then show "select_best D cs tmin smax n = select_best ?D' cs tmin smax n" .
  show "selector D cs bk tmin smax ns = selector ?D' cs bk tmin smax ns"
    unfolding selector_def using best by (intro psr_loop_cong) simp
next
  assume "set cs \<subseteq> dom bk"
  then show "\<exists>out. selector D cs bk tmin smax ns = Inr out"
    by (rule selector_total)
qed

text \<open>
  The record of \<open>A\<close> has no \<open>'FoM'\<close>: \<open>B\<close> is assigned, with or without the
  record of \<open>A\<close>.
\<close>

theorem partial_record_skipped_witness:
  "pta_step partial_dict (Fin 5) (Fin 10) ''J0000+0000'' best_init ''A'' = best_init \<and>
   try_body partial_dict (Fin 5) (Fin 10) ''J0000+0000'' best_init ''A'' = Inl KeyError \<and>
   selector partial_dict [''A'', ''B''] ex_backends (Fin 5) (Fin 10) [''J0000+0000'']
     = Inr [''J0000+0000'' \<mapsto> \<lparr>entry_pta = [''B''], entry_group = [''b1'']\<rparr>] \<and>
   selector (partial_dict(''J0000+0000'' \<mapsto>
        [''A'' \<mapsto> [''Tobs'' \<mapsto> Fin 6, ''dt'' \<mapsto> Fin 20, ''sigma'' \<mapsto> Fin 2],
         ''B'' \<mapsto> mk_record (Fin 8) (Fin 15) (Fin (3 / 2)) (Fin 25)](''A'' := None)))
      [''A'', ''B''] ex_backends (Fin 5) (Fin 10) [''J0000+0000'']
     = Inr [''J0000+0000'' \<mapsto> \<lparr>entry_pta = [''B''], entry_group = [''b1'']\<rparr>]"
proof -
  let ?r = "[''Tobs'' \<mapsto> Fin 6, ''dt'' \<mapsto> Fin 20, ''sigma'' \<mapsto> Fin 2] :: fom_record"
  let ?d = "[''A'' \<mapsto> ?r, ''B'' \<mapsto> mk_record (Fin 8) (Fin 15) (Fin (3 / 2)) (Fin 25)]"
  have d: "partial_dict ''J0000+0000'' = Some ?d"
    by (simp add: partial_dict_def)
  have r: "?d ''A'' = Some ?r"
    by simp
  have miss: "?r ''Tobs'' = None \<or> ?r ''sigma'' = None \<or> ?r ''FoM'' = None"
    by simp
  have run: "selector partial_dict [''A'', ''B''] ex_backends (Fin 5) (Fin 10) [''J0000+0000'']
     = Inr [''J0000+0000'' \<mapsto> \<lparr>entry_pta = [''B''], entry_group = [''b1'']\<rparr>]"
    by (simp add: selector_def psr_step_def select_best_def pta_step_def try_body_def
        partial_dict_def mk_record_def ex_backends_def best_init_def float_gt_def getitem_def)
  have err: "try_body partial_dict (Fin 5) (Fin 10) ''J0000+0000'' best_init ''A'' = Inl KeyError"
    by (simp add: try_body_def partial_dict_def getitem_def float_gt_def)
  from partial_record_skipped [where D = partial_dict and n = "''J0000+0000''" and d = ?d
      and c = "''A''" and r = ?r and tmin = "Fin 5" and smax = "Fin 10" and b = best_init
      and cs = "[''A'', ''B'']" and bk = ex_backends and ns = "[''J0000+0000'']", OF d r miss]
    run err
  show ?thesis by simp
qed

subsection \<open>Running the cell again\<close>




subsection \<open>Every assignment has a positive FoM\<close>

text \<open>
  C10. Every entry of the table belongs to a pulsar whose \<open>best\<close> has FoM greater
  than 0 and baseline greater than the minimum baseline. A pulsar all of whose
  qualifying records have FoM 0 has no entry.
\<close>

theorem assignment_positive:
  assumes "selector D cs bk tmin smax ns = Inr out"
  shows "(\<forall>e. out n = Some e \<longrightarrow>
            (\<exists>c. entry_pta e = [c] \<and>
               best_pta (select_best D cs tmin smax n) = Some c \<and>
               float_gt (best_FoM (select_best D cs tmin smax n)) (Fin 0) \<and>
               float_gt (best_Tobs (select_best D cs tmin smax n)) tmin)) \<and>
         ((\<forall>c \<in> set cs. \<forall>t f. qualifying D tmin smax n c = Some (t, f) \<longrightarrow> f = Fin 0) \<longrightarrow>
            out n = None)"
proof (intro conjI allI impI)
  fix e
  assume e: "out n = Some e"
  from selector_entry [OF assms e] obtain c where
    c: "best_pta (select_best D cs tmin smax n) = Some c" "entry_pta e = [c]"
    by blast
  from select_best_Some [OF c(1)] obtain t f where
    h: "qualifying D tmin smax n c = Some (t, f)"
       "select_best D cs tmin smax n = \<lparr>best_pta = Some c, best_Tobs = t, best_FoM = f\<rparr>"
       "float_gt f (Fin 0)"
    by blast
  from qualifying_SomeD [OF h(1)] have "float_gt t tmin" by blast
  with c h show "\<exists>c. entry_pta e = [c] \<and>
      best_pta (select_best D cs tmin smax n) = Some c \<and>
      float_gt (best_FoM (select_best D cs tmin smax n)) (Fin 0) \<and>
      float_gt (best_Tobs (select_best D cs tmin smax n)) tmin"
    by simp
next
  assume zero: "\<forall>c \<in> set cs. \<forall>t f. qualifying D tmin smax n c = Some (t, f) \<longrightarrow> f = Fin 0"
  show "out n = None"
  proof (cases "out n")
    case None
    then show ?thesis .
  next
    case (Some e)
    from selector_entry [OF assms Some] obtain c where
      c: "best_pta (select_best D cs tmin smax n) = Some c"
      by blast
    from select_best_Some [OF c] obtain xs ys t f where
      h: "cs = xs @ c # ys" "qualifying D tmin smax n c = Some (t, f)" "float_gt f (Fin 0)"
      by blast
    from h(1) have "c \<in> set cs" by simp
    with zero h(2) have "f = Fin 0" by blast
    with h(3) show ?thesis by (simp add: float_gt_irrefl)
  qed
qed

text \<open>
  The scenario of the specification gives an entry with FoM 25 and baseline 8; with
  both FoMs set to 0 the table is empty.
\<close>

theorem assignment_positive_witness:
  "selector (ex_dict (Fin 10) (Fin 25)) [''A'', ''B''] ex_backends (Fin 5) (Fin 10) [''J0000+0000'']
     = Inr [''J0000+0000'' \<mapsto> \<lparr>entry_pta = [''B''], entry_group = [''b1'']\<rparr>] \<and>
   best_pta (select_best (ex_dict (Fin 10) (Fin 25)) [''A'', ''B''] (Fin 5) (Fin 10) ''J0000+0000'')
     = Some ''B'' \<and>
   float_gt (best_FoM (select_best (ex_dict (Fin 10) (Fin 25)) [''A'', ''B''] (Fin 5) (Fin 10)
     ''J0000+0000'')) (Fin 0) \<and>
   float_gt (best_Tobs (select_best (ex_dict (Fin 10) (Fin 25)) [''A'', ''B''] (Fin 5) (Fin 10)
     ''J0000+0000'')) (Fin 5) \<and>
   qualifying (ex_dict (Fin 0) (Fin 0)) (Fin 5) (Fin 10) ''J0000+0000'' ''A'' = Some (Fin 6, Fin 0) \<and>
   qualifying (ex_dict (Fin 0) (Fin 0)) (Fin 5) (Fin 10) ''J0000+0000'' ''B'' = Some (Fin 8, Fin 0) \<and>
   (\<exists>out. selector (ex_dict (Fin 0) (Fin 0)) [''A'', ''B''] ex_backends (Fin 5) (Fin 10)
            [''J0000+0000''] = Inr out \<and> out ''J0000+0000'' = None)"
proof -
  let ?Z = "ex_dict (Fin 0) (Fin 0)"
  have qa: "qualifying ?Z (Fin 5) (Fin 10) ''J0000+0000'' ''A'' = Some (Fin 6, Fin 0)"
    by (simp add: qualifying_def record_of_def ex_dict_def mk_record_def float_gt_def)
  have qb: "qualifying ?Z (Fin 5) (Fin 10) ''J0000+0000'' ''B'' = Some (Fin 8, Fin 0)"
    by (simp add: qualifying_def record_of_def ex_dict_def mk_record_def float_gt_def)
  have z: "\<forall>c \<in> set [''A'', ''B'']. \<forall>t f.
      qualifying ?Z (Fin 5) (Fin 10) ''J0000+0000'' c = Some (t, f) \<longrightarrow> f = Fin 0"
    using qa qb by simp
  from assignment_positive [OF zero_selector_eval, of "''J0000+0000''"] z
  have none: "(Map.empty :: psrdict) ''J0000+0000'' = None"
    by simp
  from assignment_positive [OF ex_selector_eval, of "''J0000+0000''"]
  have some: "best_pta (select_best (ex_dict (Fin 10) (Fin 25)) [''A'', ''B''] (Fin 5) (Fin 10)
        ''J0000+0000'') = Some ''B'' \<and>
      float_gt (best_FoM (select_best (ex_dict (Fin 10) (Fin 25)) [''A'', ''B''] (Fin 5) (Fin 10)
        ''J0000+0000'')) (Fin 0) \<and>
      float_gt (best_Tobs (select_best (ex_dict (Fin 10) (Fin 25)) [''A'', ''B''] (Fin 5) (Fin 10)
        ''J0000+0000'')) (Fin 5)"
    by simp
  from some qa qb zero_selector_eval ex_selector_eval none show ?thesis
    by simp
qed

end
